theory Spec2Isabelle
  imports Main "HOL-Library.Word"
begin

section \<open>Values, errors and checked arithmetic\<close>

text \<open>
  The contract is compiled with \<^verbatim>\<open>pragma solidity ^0.8.19\<close>: every \<^verbatim>\<open>uint256\<close> is a
  256-bit word, and \<^verbatim>\<open>+\<close>, \<^verbatim>\<open>-\<close>, \<^verbatim>\<open>*\<close> outside an \<^verbatim>\<open>unchecked\<close> block revert with
  \<^verbatim>\<open>Panic(0x11)\<close> instead of wrapping; \<^verbatim>\<open>/\<close> reverts with \<^verbatim>\<open>Panic(0x12)\<close> on a zero
  divisor. A revert is a value \<open>Inl e\<close>; a call that returns \<open>v\<close> is \<open>Inr v\<close>.
\<close>

type_synonym uint256 = "256 word"
type_synonym address = "160 word"

datatype error =
    Panic nat
  | Error string
  | OwnableInvalidOwner address
  | ReentrancyGuardReentrantCall

definition checked_add :: "uint256 \<Rightarrow> uint256 \<Rightarrow> error + uint256" where
  "checked_add a b = (if unat a + unat b < 2 ^ 256 then Inr (a + b) else Inl (Panic 17))"

definition checked_sub :: "uint256 \<Rightarrow> uint256 \<Rightarrow> error + uint256" where
  "checked_sub a b = (if unat b \<le> unat a then Inr (a - b) else Inl (Panic 17))"

definition checked_mul :: "uint256 \<Rightarrow> uint256 \<Rightarrow> error + uint256" where
  "checked_mul a b = (if unat a * unat b < 2 ^ 256 then Inr (a * b) else Inl (Panic 17))"

definition checked_div :: "uint256 \<Rightarrow> uint256 \<Rightarrow> error + uint256" where
  "checked_div a b = (if b = 0 then Inl (Panic 18) else Inr (a div b))"

text \<open>Sequencing: the first revert ends the call.\<close>

definition and_then :: "error + 'a \<Rightarrow> ('a \<Rightarrow> error + 'b) \<Rightarrow> error + 'b" where
  "and_then r f = (case r of Inl e \<Rightarrow> Inl e | Inr v \<Rightarrow> f v)"

text \<open>\<^verbatim>\<open>require(cond, msg)\<close>.\<close>

definition require :: "bool \<Rightarrow> string \<Rightarrow> error + unit" where
  "require cond msg = (if cond then Inr () else Inl (Error msg))"

section \<open>The token behind \<^verbatim>\<open>IERC20\<close>\<close>

text \<open>
  The contract only knows the interface of its token: \<^verbatim>\<open>balanceOf(address)\<close> and
  \<^verbatim>\<open>transfer(address, uint256) returns (bool)\<close>. Which contract sits at the token address
  is chosen by the deployer, so the token is a parameter: a state of some type \<open>'tok\<close> and
  the two entry points as functions on it. Either call may revert. \<open>transfer\<close> takes the
  caller (\<^verbatim>\<open>msg.sender\<close> inside the token) before the recipient and the amount, and
  returns the flag together with the token's new state.
\<close>

record 'tok IERC20 =
  balanceOf :: "'tok \<Rightarrow> address \<Rightarrow> error + uint256"
  transfer :: "'tok \<Rightarrow> address \<Rightarrow> address \<Rightarrow> uint256 \<Rightarrow> error + (bool \<times> 'tok)"

text \<open>
  What a call into the vesting contract sees of the chain: its own address
  (\<^verbatim>\<open>address(this)\<close>), \<^verbatim>\<open>block.timestamp\<close> and the code of the contract deployed at
  the address of the immutable \<^verbatim>\<open>token\<close>.
\<close>

record 'tok env =
  this :: address
  block_timestamp :: uint256
  erc20 :: "'tok IERC20"

section \<open>The contract \<^verbatim>\<open>TokenVesting\<close>\<close>

text \<open>
  The five immutables, the storage variable \<^verbatim>\<open>released\<close>, and the storage of the two
  base contracts: \<^verbatim>\<open>Ownable\<close>'s owner and the flag of \<^verbatim>\<open>ReentrancyGuard\<close>
  (\<open>entered\<close> is \<^verbatim>\<open>_status == ENTERED\<close>).
\<close>

record TokenVesting =
  token :: address
  beneficiary :: address
  start_time :: uint256
  cliff_duration :: uint256
  duration :: uint256
  released :: uint256
  owner :: address
  entered :: bool

text \<open>
  Modelled from the spec: the constructor of the base contract \<^verbatim>\<open>Ownable\<close>, which lives
  in the vendored OpenZeppelin library and not among the repository's sources. The spec
  requires every address-typed field to be non-zero and says that the deployed contract
  re-checks its constraints at construction time; \<^verbatim>\<open>initial_owner\<close> is the address-typed
  field that the constructor body itself does not check, it is handed to \<^verbatim>\<open>Ownable\<close>.
\<close>

definition Ownable_constructor :: "address \<Rightarrow> error + address" where
  "Ownable_constructor initialOwner =
     (if initialOwner = 0 then Inl (OwnableInvalidOwner 0) else Inr initialOwner)"

text \<open>
  The constructor runs the base constructor first, then the five \<^verbatim>\<open>require\<close>s in the
  order of the source, then sets the immutables. \<open>now\<close> is \<^verbatim>\<open>block.timestamp\<close> of the
  deployment. \<^verbatim>\<open>released\<close> starts at 0 and the reentrancy flag is clear.
\<close>

definition constructor ::
  "uint256 \<Rightarrow> address \<Rightarrow> address \<Rightarrow> uint256 \<Rightarrow> uint256 \<Rightarrow> uint256 \<Rightarrow> address
     \<Rightarrow> error + TokenVesting" where
  "constructor now token_address beneficiary' start_time' cliff_duration' duration' initial_owner =
     and_then (Ownable_constructor initial_owner) (\<lambda>own.
     and_then (require (token_address \<noteq> 0) ''TokenVesting: token address cannot be zero'') (\<lambda>_.
     and_then (require (beneficiary' \<noteq> 0) ''TokenVesting: beneficiary cannot be zero'') (\<lambda>_.
     and_then (require (duration' > 0) ''TokenVesting: duration must be > 0'') (\<lambda>_.
     and_then (require (cliff_duration' \<le> duration') ''TokenVesting: cliff must be <= duration'') (\<lambda>_.
     and_then (require (start_time' \<ge> now) ''TokenVesting: start time must be >= current time'') (\<lambda>_.
     Inr \<lparr> token = token_address, beneficiary = beneficiary', start_time = start_time',
           cliff_duration = cliff_duration', duration = duration', released = 0,
           owner = own, entered = False \<rparr>))))))"

text \<open>
  \<^verbatim>\<open>_vested_amount(_timestamp)\<close> (an Isabelle name cannot start with an underscore).
  The balance is read first, then the two comparisons, then the linear formula; each
  arithmetic operation is checked, in the order the source evaluates it.
\<close>

definition vested_amount ::
  "'tok env \<Rightarrow> TokenVesting \<Rightarrow> 'tok \<Rightarrow> uint256 \<Rightarrow> error + uint256" where
  "vested_amount E c ts timestamp =
     and_then (balanceOf (erc20 E) ts (this E)) (\<lambda>bal.
     and_then (checked_add bal (released c)) (\<lambda>total_balance.
     and_then (checked_add (start_time c) (cliff_duration c)) (\<lambda>cliff_end.
     if timestamp < cliff_end then Inr 0 else
     and_then (checked_add (start_time c) (duration c)) (\<lambda>vest_end.
     if timestamp \<ge> vest_end then Inr total_balance else
     and_then (checked_sub timestamp (start_time c)) (\<lambda>elapsed.
     and_then (checked_mul total_balance elapsed) (\<lambda>product.
     checked_div product (duration c)))))))"

text \<open>\<^verbatim>\<open>releasable_amount()\<close>: the subtraction is checked as well.\<close>

definition releasable_amount :: "'tok env \<Rightarrow> TokenVesting \<Rightarrow> 'tok \<Rightarrow> error + uint256" where
  "releasable_amount E c ts =
     and_then (vested_amount E c ts (block_timestamp E)) (\<lambda>vested.
     checked_sub vested (released c))"

text \<open>
  \<^verbatim>\<open>release()\<close>. The state is the contract's storage together with the token's state.
  The modifier \<^verbatim>\<open>nonReentrant\<close> comes from the vendored OpenZeppelin \<^verbatim>\<open>ReentrancyGuard\<close>,
  which is not among the repository's sources and which the specification does not
  describe; it is taken as the library documents it: the call reverts when the flag is
  set, the flag is set for the body and cleared afterwards. The counter is advanced
  before the token is called, as in the source, and the \<^verbatim>\<open>require\<close> around the call checks
  the flag the token returns. A revert anywhere returns \<open>Inl\<close> and no state: the EVM
  discards every change the call made, in the contract and in the token.
\<close>

definition release ::
  "'tok env \<Rightarrow> TokenVesting \<times> 'tok \<Rightarrow> error + (TokenVesting \<times> 'tok)" where
  "release E s =
     (let c = fst s; ts = snd s in
      if entered c then Inl ReentrancyGuardReentrantCall else
      let c1 = c\<lparr>entered := True\<rparr> in
      and_then (releasable_amount E c1 ts) (\<lambda>amount_to_release.
      and_then (require (amount_to_release > 0) ''TokenVesting: no tokens are due'') (\<lambda>_.
      and_then (checked_add (released c1) amount_to_release) (\<lambda>r.
      let c2 = c1\<lparr>released := r\<rparr> in
      and_then (transfer (erc20 E) ts (this E) (beneficiary c2) amount_to_release) (\<lambda>res.
      and_then (require (fst res) ''TokenVesting: token transfer failed'') (\<lambda>_.
      Inr (c2\<lparr>entered := False\<rparr>, snd res)))))))"

text \<open>
  A transaction that calls \<open>f\<close> on the state \<open>s\<close>: the state afterwards is the one \<open>f\<close>
  returns, or \<open>s\<close> itself when \<open>f\<close> reverts.
\<close>

definition state_after :: "('s \<Rightarrow> error + 's) \<Rightarrow> 's \<Rightarrow> 's" where
  "state_after f s = (case f s of Inl e \<Rightarrow> s | Inr s' \<Rightarrow> s')"

definition reverts :: "error + 'a \<Rightarrow> bool" where
  "reverts r = (case r of Inl e \<Rightarrow> True | Inr v \<Rightarrow> False)"

text \<open>
  The outcome of the call \<^verbatim>\<open>token.transfer(beneficiary, amount)\<close> counts as failed when
  the token reverts or returns \<^verbatim>\<open>false\<close>.
\<close>

definition transfer_failed :: "error + (bool \<times> 'tok) \<Rightarrow> bool" where
  "transfer_failed r = (case r of Inl e \<Rightarrow> True | Inr res \<Rightarrow> \<not> fst res)"

section \<open>The schedule as the specification words it\<close>

text \<open>
  \<^verbatim>\<open>vested(t)\<close> of the specification, on unbounded naturals: 0 before \<open>start + cliff\<close>,
  \<open>total_ever_held\<close> from \<open>start + duration\<close> on, and in between
  \<open>total_ever_held * (t - start) / duration\<close> with truncating division.
\<close>

definition vested_spec :: "nat \<Rightarrow> nat \<Rightarrow> nat \<Rightarrow> nat \<Rightarrow> nat \<Rightarrow> nat" where
  "vested_spec start cliff dur total_ever_held t =
     (if t < start + cliff then 0
      else if t \<ge> start + dur then total_ever_held
      else total_ever_held * (t - start) div dur)"

section \<open>A sample token and sample states\<close>

text \<open>
  A plain ERC20 ledger with a pause switch, to run the contract on concrete inputs:
  \<open>balanceOf\<close> reads the ledger; \<open>transfer\<close> returns \<open>false\<close> while the token is paused,
  reverts when the sender's balance is too small, and otherwise moves the amount. It is
  not part of the repository: any contract with the two entry points can take its place.
\<close>

record ledger =
  paused :: bool
  balances :: "address \<Rightarrow> uint256"

definition ledger_balanceOf :: "ledger \<Rightarrow> address \<Rightarrow> error + uint256" where
  "ledger_balanceOf ts account = Inr (balances ts account)"

definition ledger_transfer ::
  "ledger \<Rightarrow> address \<Rightarrow> address \<Rightarrow> uint256 \<Rightarrow> error + (bool \<times> ledger)" where
  "ledger_transfer ts sender recipient amount =
     (if paused ts then Inr (False, ts)
      else if balances ts sender < amount
        then Inl (Error ''ERC20: transfer amount exceeds balance'')
      else
        let debited = (balances ts)(sender := balances ts sender - amount);
            credited = debited(recipient := debited recipient + amount)
        in Inr (True, ts\<lparr>balances := credited\<rparr>))"

definition sample_token :: "ledger IERC20" where
  "sample_token = \<lparr> balanceOf = ledger_balanceOf, transfer = ledger_transfer \<rparr>"

text \<open>
  The vesting contract sits at address 100, its beneficiary at 200. The schedule starts
  at time 1000, with a cliff of 30 seconds and a duration of 100 seconds.
\<close>

definition sample_env :: "uint256 \<Rightarrow> ledger env" where
  "sample_env now = \<lparr> this = 100, block_timestamp = now, erc20 = sample_token \<rparr>"

definition sample_vesting :: "uint256 \<Rightarrow> TokenVesting" where
  "sample_vesting already_released =
     \<lparr> token = 300, beneficiary = 200, start_time = 1000, cliff_duration = 30,
       duration = 100, released = already_released, owner = 400, entered = False \<rparr>"

definition sample_ledger :: "bool \<Rightarrow> uint256 \<Rightarrow> ledger" where
  "sample_ledger is_paused held = \<lparr> paused = is_paused, balances = (\<lambda>_. 0)(100 := held) \<rparr>"

section \<open>The submit handler of the frontend\<close>















section \<open>Checked arithmetic, read on the naturals\<close>

lemmas sample_defs = sample_env_def sample_token_def sample_ledger_def sample_vesting_def
  ledger_balanceOf_def ledger_transfer_def

lemmas run_defs = vested_amount_def releasable_amount_def release_def and_then_def
  checked_add_def checked_sub_def checked_mul_def checked_div_def require_def

lemma and_then_simps: "and_then (Inr v) f = f v" "and_then (Inl e) f = Inl e"
  by (simp_all add: and_then_def)

lemma checked_add_fits:
  "unat a + unat b < 2 ^ 256 \<Longrightarrow> checked_add a b = Inr (a + b) \<and> unat (a + b) = unat a + unat b"
  using unat_add_lem [of a b] by (simp add: checked_add_def)

lemma checked_add_overflow:
  "\<not> unat a + unat b < 2 ^ 256 \<Longrightarrow> checked_add a b = Inl (Panic 17)"
  by (simp add: checked_add_def)

lemma checked_mul_fits:
  "unat a * unat b < 2 ^ 256 \<Longrightarrow> checked_mul a b = Inr (a * b) \<and> unat (a * b) = unat a * unat b"
  using unat_mult_lem [of a b] by (simp add: checked_mul_def)

lemma checked_mul_overflow:
  "\<not> unat a * unat b < 2 ^ 256 \<Longrightarrow> checked_mul a b = Inl (Panic 17)"
  by (simp add: checked_mul_def)

lemma checked_sub_fits:
  "unat b \<le> unat a \<Longrightarrow> checked_sub a b = Inr (a - b) \<and> unat (a - b) = unat a - unat b"
  by (simp add: checked_sub_def unat_sub word_le_nat_alt)

lemma checked_sub_underflow:
  "\<not> unat b \<le> unat a \<Longrightarrow> checked_sub a b = Inl (Panic 17)"
  by (simp add: checked_sub_def)

lemma unat_word_of_nat_fits: "n < 2 ^ 256 \<Longrightarrow> unat (word_of_nat n :: uint256) = n"
  by (simp add: unat_of_nat)

lemma vested_spec_le_total: "vested_spec S C D tot T \<le> tot"
proof (cases "D = 0")
  case True
  then show ?thesis by (simp add: vested_spec_def)
next
  case False
  have "tot * (T - S) div D \<le> tot" if "T < S + D"
  proof -
    from that have "T - S \<le> D" by arith
    then have "tot * (T - S) \<le> tot * D" by simp
    then have "tot * (T - S) div D \<le> tot * D div D" by (rule div_le_mono)
    with False show ?thesis by simp
  qed
  then show ?thesis by (auto simp add: vested_spec_def)
qed

lemma vested_spec_mono_time: "T1 \<le> T2 \<Longrightarrow> vested_spec S C D tot T1 \<le> vested_spec S C D tot T2"
proof -
  assume le: "T1 \<le> T2"
  have lin: "tot * (T1 - S) div D \<le> tot * (T2 - S) div D"
    using le by (intro div_le_mono mult_le_mono2) simp
  have top: "tot * (T1 - S) div D \<le> tot" if "T1 < S + D"
    using vested_spec_le_total [of S 0 D tot T1] that
    by (simp add: vested_spec_def split: if_splits)
  show ?thesis
    using le lin top by (auto simp add: vested_spec_def)
qed

lemma vested_spec_mono_total:
  "tot \<le> tot' \<Longrightarrow> vested_spec S C D tot T \<le> vested_spec S C D tot' T"
  by (auto simp add: vested_spec_def intro!: div_le_mono mult_le_mono1)


section \<open>What \<^verbatim>\<open>_vested_amount\<close> computes\<close>

text \<open>
  The call returns exactly when none of its sums and products leaves \<^verbatim>\<open>uint256\<close>, and
  then it returns the schedule of the specification; otherwise it reverts with
  \<^verbatim>\<open>Panic(0x11)\<close>. The subtraction \<^verbatim>\<open>_timestamp - start_time\<close> cannot underflow and the
  divisor cannot be zero where the division is reached, whatever the parameters are.
\<close>

lemma vested_amount_exact:
  assumes bal: "balanceOf (erc20 E) ts (this E) = Inr bal"
  shows "vested_amount E c ts t =
     (let tot = unat bal + unat (released c); S = unat (start_time c);
          C = unat (cliff_duration c); D = unat (duration c); T = unat t
      in if tot < 2 ^ 256 \<and> S + C < 2 ^ 256 \<and>
            (S + C \<le> T \<longrightarrow> S + D < 2 ^ 256 \<and> (T < S + D \<longrightarrow> tot * (T - S) < 2 ^ 256))
         then Inr (word_of_nat (vested_spec S C D tot T)) else Inl (Panic 17))"
proof -
  define tot S C D T where "tot = unat bal + unat (released c)" and "S = unat (start_time c)"
    and "C = unat (cliff_duration c)" and "D = unat (duration c)" and "T = unat t"
  note defs = tot_def S_def C_def D_def T_def
  show ?thesis
  proof (cases "tot < 2 ^ 256")
    case False
    then show ?thesis
      using checked_add_overflow [of bal "released c"]
      by (simp add: vested_amount_def bal and_then_simps defs)
  next
    case tot: True
    then have a1: "checked_add bal (released c) = Inr (bal + released c)"
      and u1: "unat (bal + released c) = tot"
      using checked_add_fits [of bal "released c"] by (simp_all add: defs)
    have w1: "bal + released c = word_of_nat tot"
      unfolding u1 [symmetric] by simp
    show ?thesis
    proof (cases "S + C < 2 ^ 256")
      case False
      then show ?thesis
        using checked_add_overflow [of "start_time c" "cliff_duration c"]
        by (simp add: vested_amount_def bal and_then_simps a1 defs)
    next
      case sc: True
      then have a2: "checked_add (start_time c) (cliff_duration c)
                       = Inr (start_time c + cliff_duration c)"
        and u2: "unat (start_time c + cliff_duration c) = S + C"
        using checked_add_fits [of "start_time c" "cliff_duration c"] by (simp_all add: defs)
      show ?thesis
      proof (cases "T < S + C")
        case True
        then have "t < start_time c + cliff_duration c"
          by (simp add: word_less_nat_alt u2 defs)
        with True tot sc show ?thesis
          by (simp add: vested_amount_def bal and_then_simps a1 a2 vested_spec_def flip: defs)
      next
        case after_cliff: False
        then have nlt: "\<not> t < start_time c + cliff_duration c"
          by (simp add: word_less_nat_alt u2 defs)
        show ?thesis
        proof (cases "S + D < 2 ^ 256")
          case False
          with after_cliff show ?thesis
            using checked_add_overflow [of "start_time c" "duration c"]
            by (simp add: vested_amount_def bal and_then_simps a1 a2 nlt defs)
        next
          case sd: True
          then have a3: "checked_add (start_time c) (duration c)
                           = Inr (start_time c + duration c)"
            and u3: "unat (start_time c + duration c) = S + D"
            using checked_add_fits [of "start_time c" "duration c"] by (simp_all add: defs)
          show ?thesis
          proof (cases "T < S + D")
            case False
            then have "start_time c + duration c \<le> t"
              by (simp add: word_le_nat_alt u3 defs)
            with False after_cliff tot sc sd show ?thesis
              by (simp add: vested_amount_def bal and_then_simps a1 a2 a3 nlt vested_spec_def
                    w1 flip: defs)
          next
            case linear: True
            then have nge: "\<not> start_time c + duration c \<le> t"
              by (simp add: word_le_nat_alt u3 defs)
            from after_cliff have "S \<le> T" by simp
            then have a4: "checked_sub t (start_time c) = Inr (t - start_time c)"
              and u4: "unat (t - start_time c) = T - S"
              using checked_sub_fits [of "start_time c" t] by (simp_all add: defs)
            from linear after_cliff have dpos: "duration c \<noteq> 0"
              by (auto simp add: defs)
            show ?thesis
            proof (cases "tot * (T - S) < 2 ^ 256")
              case False
              with linear after_cliff show ?thesis
                using checked_mul_overflow [of "bal + released c" "t - start_time c"]
                by (simp add: vested_amount_def bal and_then_simps a1 a2 a3 a4 nlt nge u1 u4
                      flip: defs)
            next
              case prod: True
              then have a5: "checked_mul (bal + released c) (t - start_time c)
                               = Inr ((bal + released c) * (t - start_time c))"
                and u5: "unat ((bal + released c) * (t - start_time c)) = tot * (T - S)"
                using checked_mul_fits [of "bal + released c" "t - start_time c"]
                by (simp_all add: u1 u4)
              have u6: "unat ((bal + released c) * (t - start_time c) div duration c)
                          = tot * (T - S) div D"
                by (simp add: unat_div u5 defs)
              have w6: "(bal + released c) * (t - start_time c) div duration c
                          = word_of_nat (tot * (T - S) div D)"
                unfolding u6 [symmetric] by simp
              from prod linear after_cliff tot sc sd show ?thesis
                by (simp add: vested_amount_def bal and_then_simps a1 a2 a3 a4 a5 nlt nge
                      checked_div_def dpos w6 vested_spec_def flip: defs)
            qed
          qed
        qed
      qed
    qed
  qed
qed

text \<open>Whatever the call returns is the schedule's value, and the total fits.\<close>

lemma vested_amount_returns:
  assumes bal: "balanceOf (erc20 E) ts (this E) = Inr bal"
    and ret: "vested_amount E c ts t = Inr v"
  shows "unat v = vested_spec (unat (start_time c)) (unat (cliff_duration c)) (unat (duration c))
                    (unat bal + unat (released c)) (unat t)"
    and "unat bal + unat (released c) < 2 ^ 256"
proof -
  let ?tot = "unat bal + unat (released c)"
  let ?spec = "vested_spec (unat (start_time c)) (unat (cliff_duration c)) (unat (duration c))
                 ?tot (unat t)"
  from ret vested_amount_exact [OF bal, of c t]
  have fits: "?tot < 2 ^ 256" and v: "v = word_of_nat ?spec"
    by (simp_all add: Let_def split: if_splits)
  from fits show "?tot < 2 ^ 256" .
  have "?spec \<le> ?tot" by (rule vested_spec_le_total)
  then have "?spec < 2 ^ 256" using fits by (rule le_less_trans)
  then show "unat v = ?spec" unfolding v by (rule unat_word_of_nat_fits)
qed

lemma vested_amount_needs_balance:
  "vested_amount E c ts t = Inr v \<Longrightarrow> \<exists>bal. balanceOf (erc20 E) ts (this E) = Inr bal"
  by (cases "balanceOf (erc20 E) ts (this E)") (simp_all add: vested_amount_def and_then_simps)


text \<open>
  Claim C1, as the code has it. Given the token balance \<open>bal\<close> of the contract, let
  \<open>total_ever_held = bal + released\<close>. If \<open>total_ever_held\<close> and \<open>start_time + cliff_duration\<close>
  fit in \<^verbatim>\<open>uint256\<close>, and, for a timestamp at or after the end of the cliff, so does
  \<open>start_time + duration\<close>, and, for a timestamp between the cliff and the end, so does
  \<open>total_ever_held * (t - start_time)\<close>, then \<^verbatim>\<open>_vested_amount(t)\<close> returns the schedule of
  the specification: 0 before \<open>start_time + cliff_duration\<close>, \<open>total_ever_held\<close> from
  \<open>start_time + duration\<close> on, and \<open>total_ever_held * (t - start_time) div duration\<close> in
  between. In every other case the call reverts with \<^verbatim>\<open>Panic(0x11)\<close>. Neither
  \<open>cliff_duration \<le> duration\<close> nor \<open>duration > 0\<close> is needed for this.
\<close>

theorem vested_amount_piecewise:
  assumes "balanceOf (erc20 E) ts (this E) = Inr bal"
  shows "let tot = unat bal + unat (released c); S = unat (start_time c);
             C = unat (cliff_duration c); D = unat (duration c); T = unat t
         in if tot < 2 ^ 256 \<and> S + C < 2 ^ 256 \<and>
               (S + C \<le> T \<longrightarrow> S + D < 2 ^ 256 \<and> (T < S + D \<longrightarrow> tot * (T - S) < 2 ^ 256))
            then \<exists>v. vested_amount E c ts t = Inr v \<and> unat v = vested_spec S C D tot T
            else vested_amount E c ts t = Inl (Panic 17)"
proof -
  let ?tot = "unat bal + unat (released c)"
  let ?spec = "vested_spec (unat (start_time c)) (unat (cliff_duration c)) (unat (duration c))
                 ?tot (unat t)"
  have "unat (word_of_nat ?spec :: uint256) = ?spec" if "?tot < 2 ^ 256"
  proof -
    have "?spec \<le> ?tot" by (rule vested_spec_le_total)
    then have "?spec < 2 ^ 256" using that by (rule le_less_trans)
    then show ?thesis by (rule unat_word_of_nat_fits)
  qed
  then show ?thesis
    using vested_amount_exact [OF assms, of c t] by (simp add: Let_def)
qed

theorem vested_amount_piecewise_witness:
  "balanceOf (erc20 (sample_env 1050)) (sample_ledger False 1000) (this (sample_env 1050)) = Inr 1000
   \<and> (\<exists>v. vested_amount (sample_env 1050) (sample_vesting 0) (sample_ledger False 1000) 1050 = Inr v
          \<and> unat v = 500)"
proof -
  have h: "balanceOf (erc20 (sample_env 1050)) (sample_ledger False 1000) (this (sample_env 1050))
             = Inr 1000"
    by (simp add: sample_env_def sample_token_def sample_ledger_def ledger_balanceOf_def)
  show ?thesis
    using h vested_amount_piecewise [OF h, of "sample_vesting 0" 1050]
    by (simp add: sample_vesting_def vested_spec_def Let_def)
qed

text \<open>
  Claim C1 as it is stated fails where the product overflows: with a balance of \<open>2 ^ 255\<close>,
  50 seconds into a schedule of 100 seconds, the schedule's value \<open>2 ^ 254\<close> fits in
  \<^verbatim>\<open>uint256\<close>, but \<open>2 ^ 255 * 50\<close> does not, and the call reverts.
\<close>

theorem vested_amount_overflow_counterexample:
  "cliff_duration (sample_vesting 0) \<le> duration (sample_vesting 0)
   \<and> 0 < duration (sample_vesting 0)
   \<and> balanceOf (erc20 (sample_env 1050)) (sample_ledger False (2 ^ 255)) (this (sample_env 1050))
       = Inr (2 ^ 255)
   \<and> vested_spec 1000 30 100 (2 ^ 255) 1050 = 2 ^ 254
   \<and> vested_amount (sample_env 1050) (sample_vesting 0) (sample_ledger False (2 ^ 255)) 1050
       = Inl (Panic 17)"
  by (simp add: sample_defs run_defs vested_spec_def)

text \<open>
  Claim C5: for a fixed state, the vested amount does not decrease with the timestamp.
  Whenever \<^verbatim>\<open>_vested_amount\<close> returns at two timestamps \<open>t1 \<le> t2\<close> of the same state, the
  first result is at most the second. This holds for any parameters.
\<close>

theorem vested_amount_monotone:
  assumes le: "t1 \<le> t2"
    and r1: "vested_amount E c ts t1 = Inr v1"
    and r2: "vested_amount E c ts t2 = Inr v2"
  shows "v1 \<le> v2"
proof -
  from vested_amount_needs_balance [OF r1]
  obtain bal where bal: "balanceOf (erc20 E) ts (this E) = Inr bal" ..
  from le have "unat t1 \<le> unat t2" by (simp add: word_le_nat_alt)
  then have "unat v1 \<le> unat v2"
    unfolding vested_amount_returns(1) [OF bal r1] vested_amount_returns(1) [OF bal r2]
    by (rule vested_spec_mono_time)
  then show ?thesis by (simp add: word_le_nat_alt)
qed

theorem vested_amount_monotone_witness:
  "(1040 :: uint256) \<le> 1060
   \<and> vested_amount (sample_env 1050) (sample_vesting 0) (sample_ledger False 1000) 1040 = Inr 400
   \<and> vested_amount (sample_env 1050) (sample_vesting 0) (sample_ledger False 1000) 1060 = Inr 600
   \<and> (400 :: uint256) \<le> 600"
proof -
  have h1: "(1040 :: uint256) \<le> 1060" by simp
  have h2: "vested_amount (sample_env 1050) (sample_vesting 0) (sample_ledger False 1000) 1040
              = Inr 400"
    by (simp add: sample_defs run_defs)
  have h3: "vested_amount (sample_env 1050) (sample_vesting 0) (sample_ledger False 1000) 1060
              = Inr 600"
    by (simp add: sample_defs run_defs)
  from vested_amount_monotone [OF h1 h2 h3] h1 h2 h3 show ?thesis by simp
qed

text \<open>
  Claim C10: the vested amount never exceeds the total. Whatever \<^verbatim>\<open>_vested_amount(t)\<close>
  returns is at most \<open>balanceOf(address(this)) + released\<close>, the sum taken on the naturals
  (no wrap-around). This holds for any parameters.
\<close>

theorem vested_amount_le_total:
  assumes bal: "balanceOf (erc20 E) ts (this E) = Inr bal"
    and ret: "vested_amount E c ts t = Inr v"
  shows "unat v \<le> unat bal + unat (released c)"
  unfolding vested_amount_returns(1) [OF bal ret] by (rule vested_spec_le_total)

theorem vested_amount_le_total_witness:
  "balanceOf (erc20 (sample_env 1050)) (sample_ledger False 1000) (this (sample_env 1050)) = Inr 1000
   \<and> vested_amount (sample_env 1050) (sample_vesting 7) (sample_ledger False 1000) 1075 = Inr 755
   \<and> unat (755 :: uint256) \<le> unat (1000 :: uint256) + unat (released (sample_vesting 7))"
proof -
  have h1: "balanceOf (erc20 (sample_env 1050)) (sample_ledger False 1000) (this (sample_env 1050))
              = Inr 1000"
    by (simp add: sample_defs)
  have h2: "vested_amount (sample_env 1050) (sample_vesting 7) (sample_ledger False 1000) 1075
              = Inr 755"
    by (simp add: sample_defs run_defs)
  from vested_amount_le_total [OF h1 h2] h1 h2 show ?thesis by simp
qed

section \<open>What \<^verbatim>\<open>releasable_amount\<close> and \<^verbatim>\<open>release\<close> do\<close>

lemma vested_amount_entered:
  "vested_amount E (c\<lparr>entered := x\<rparr>) ts t = vested_amount E c ts t"
  by (simp add: vested_amount_def cong: if_cong)

lemma releasable_amount_entered:
  "releasable_amount E (c\<lparr>entered := x\<rparr>) ts = releasable_amount E c ts"
  by (simp add: releasable_amount_def vested_amount_entered)

lemma releasable_amount_Inr:
  "releasable_amount E c ts = Inr a \<longleftrightarrow>
     (\<exists>v. vested_amount E c ts (block_timestamp E) = Inr v \<and> unat (released c) \<le> unat v
          \<and> a = v - released c)"
  by (cases "vested_amount E c ts (block_timestamp E)")
     (auto simp add: releasable_amount_def and_then_simps checked_sub_def)

lemma releasable_amount_no_overflow:
  assumes "releasable_amount E c ts = Inr a"
  shows "unat (released c) + unat a < 2 ^ 256"
proof -
  from assms obtain v where v: "unat (released c) \<le> unat v" "a = v - released c"
    unfolding releasable_amount_Inr by blast
  then have "unat a = unat v - unat (released c)"
    by (simp add: unat_sub word_le_nat_alt)
  with v have "unat (released c) + unat a = unat v" by simp
  then show ?thesis using unsigned_less [of v] by simp
qed

lemma release_Inr:
  "release E (c, ts) = Inr (c', ts') \<longleftrightarrow>
     \<not> entered c \<and>
     (\<exists>a. releasable_amount E c ts = Inr a \<and> a \<noteq> 0 \<and>
          transfer (erc20 E) ts (this E) (beneficiary c) a = Inr (True, ts') \<and>
          c' = c\<lparr>released := released c + a\<rparr>)"
proof (cases "entered c")
  case True
  then show ?thesis by (simp add: release_def)
next
  case ne: False
  show ?thesis
  proof (cases "releasable_amount E c ts")
    case (Inl e)
    with ne show ?thesis
      by (simp add: release_def releasable_amount_entered and_then_simps)
  next
    case (Inr a)
    from releasable_amount_no_overflow [OF Inr]
    have add: "checked_add (released c) a = Inr (released c + a)"
      by (simp add: checked_add_fits)
    show ?thesis
    proof (cases "a = 0")
      case True
      with ne Inr show ?thesis
        by (simp add: release_def releasable_amount_entered and_then_simps require_def)
    next
      case nz: False
      then have pos: "0 < a" by (simp add: word_neq_0_conv)
      show ?thesis
      proof (cases "transfer (erc20 E) ts (this E) (beneficiary c) a")
        case (Inl e)
        with ne Inr nz pos add show ?thesis
          by (simp add: release_def releasable_amount_entered and_then_simps require_def)
      next
        case res: (Inr res)
        obtain ok ts2 where res_eq: "res = (ok, ts2)" by (cases res)
        have rec: "c\<lparr>entered := True, released := released c + a, entered := False\<rparr>
                     = c\<lparr>released := released c + a\<rparr>"
          using ne by simp
        from ne Inr nz pos add res res_eq rec show ?thesis
          by (auto simp add: release_def releasable_amount_entered and_then_simps require_def)
      qed
    qed
  qed
qed

lemma reverts_iff: "reverts r \<longleftrightarrow> (\<forall>x. r \<noteq> Inr x)"
  by (cases r) (auto simp add: reverts_def)

lemma release_reverts_iff:
  "reverts (release E (c, ts)) \<longleftrightarrow>
     entered c \<or> reverts (releasable_amount E c ts) \<or> releasable_amount E c ts = Inr 0 \<or>
     (\<exists>a. releasable_amount E c ts = Inr a \<and>
          transfer_failed (transfer (erc20 E) ts (this E) (beneficiary c) a))"
proof (cases "releasable_amount E c ts")
  case (Inl e)
  then show ?thesis
    unfolding reverts_iff [of "release E (c, ts)"] by (simp add: release_Inr reverts_def)
next
  case (Inr a)
  show ?thesis
  proof (cases "transfer (erc20 E) ts (this E) (beneficiary c) a")
    case (Inl e)
    with Inr show ?thesis
      unfolding reverts_iff [of "release E (c, ts)"]
      by (simp add: release_Inr transfer_failed_def)
  next
    case res: (Inr res)
    obtain ok ts2 where "res = (ok, ts2)" by (cases res)
    with Inr res show ?thesis
      unfolding reverts_iff [of "release E (c, ts)"]
      by (auto simp add: release_Inr transfer_failed_def reverts_def)
  qed
qed

text \<open>
  Claim C6, as the code has it. Whenever \<^verbatim>\<open>_vested_amount(block.timestamp)\<close> returns \<open>v\<close>:
  if \<open>released \<le> v\<close>, then \<^verbatim>\<open>releasable_amount()\<close> returns the exact difference
  \<open>v - released\<close>; if \<open>released > v\<close>, the checked subtraction reverts with
  \<^verbatim>\<open>Panic(0x11)\<close>.
\<close>

theorem releasable_amount_difference:
  assumes "vested_amount E c ts (block_timestamp E) = Inr v"
  shows "if unat (released c) \<le> unat v
         then \<exists>a. releasable_amount E c ts = Inr a
                 \<and> unat a + unat (released c) = unat v
         else releasable_amount E c ts = Inl (Panic 17)"
proof (cases "unat (released c) \<le> unat v")
  case True
  then have "checked_sub v (released c) = Inr (v - released c)"
    and "unat (v - released c) = unat v - unat (released c)"
    using checked_sub_fits [of "released c" v] by simp_all
  with True assms show ?thesis
    by (simp add: releasable_amount_def and_then_simps)
next
  case False
  with assms show ?thesis
    by (simp add: releasable_amount_def and_then_simps checked_sub_underflow)
qed

theorem releasable_amount_difference_witness:
  "vested_amount (sample_env 1050) (sample_vesting 100) (sample_ledger False 900)
     (block_timestamp (sample_env 1050)) = Inr 500
   \<and> (\<exists>a. releasable_amount (sample_env 1050) (sample_vesting 100) (sample_ledger False 900) = Inr a
          \<and> unat a + 100 = 500)"
proof -
  have h: "vested_amount (sample_env 1050) (sample_vesting 100) (sample_ledger False 900)
             (block_timestamp (sample_env 1050)) = Inr 500"
    by (simp add: sample_defs run_defs)
  have r: "released (sample_vesting 100) = 100"
    by (simp add: sample_vesting_def)
  from releasable_amount_difference [OF h] h show ?thesis
    by (simp add: r)
qed

text \<open>
  Claim C6 as it is stated fails in a state whose released counter is above the vested
  amount: with 50 tokens released and 10 left in the contract, half-way through the
  schedule the vested amount is 30, and \<^verbatim>\<open>releasable_amount()\<close> reverts.
\<close>

theorem releasable_amount_underflow_counterexample:
  "vested_amount (sample_env 1050) (sample_vesting 50) (sample_ledger False 10)
     (block_timestamp (sample_env 1050)) = Inr 30
   \<and> released (sample_vesting 50) = 50
   \<and> releasable_amount (sample_env 1050) (sample_vesting 50) (sample_ledger False 10)
       = Inl (Panic 17)"
  by (simp add: sample_defs run_defs)

text \<open>
  Claim C3: \<^verbatim>\<open>release()\<close> is atomic on failure. In every state, if the transfer of the
  releasable amount to the beneficiary fails (the token reverts or returns \<^verbatim>\<open>false\<close>), then
  \<^verbatim>\<open>release()\<close> reverts, and the state after the call, the contract's storage and the
  token's, is the state before it; in particular \<^verbatim>\<open>released\<close> has not advanced.
\<close>

theorem release_reverts_on_failed_transfer:
  assumes amt: "releasable_amount E c ts = Inr a"
    and failed: "transfer_failed (transfer (erc20 E) ts (this E) (beneficiary c) a)"
  shows "reverts (release E (c, ts))
         \<and> state_after (release E) (c, ts) = (c, ts)
         \<and> released (fst (state_after (release E) (c, ts))) = released c"
proof -
  have "release E (c, ts) \<noteq> Inr s'" for s'
  proof
    assume "release E (c, ts) = Inr s'"
    then have "release E (c, ts) = Inr (fst s', snd s')" by simp
    then obtain a' where "releasable_amount E c ts = Inr a'"
      and "transfer (erc20 E) ts (this E) (beneficiary c) a' = Inr (True, snd s')"
      unfolding release_Inr by blast
    with amt failed show False by (simp add: transfer_failed_def)
  qed
  then have "reverts (release E (c, ts))"
    by (cases "release E (c, ts)") (auto simp add: reverts_def)
  then show ?thesis
    by (cases "release E (c, ts)") (simp_all add: reverts_def state_after_def)
qed

theorem release_reverts_on_failed_transfer_witness:
  "releasable_amount (sample_env 1060) (sample_vesting 0) (sample_ledger True 1000) = Inr 600
   \<and> transfer_failed (transfer (erc20 (sample_env 1060)) (sample_ledger True 1000)
        (this (sample_env 1060)) (beneficiary (sample_vesting 0)) 600)
   \<and> reverts (release (sample_env 1060) (sample_vesting 0, sample_ledger True 1000))
   \<and> state_after (release (sample_env 1060)) (sample_vesting 0, sample_ledger True 1000)
       = (sample_vesting 0, sample_ledger True 1000)"
proof -
  have h1: "releasable_amount (sample_env 1060) (sample_vesting 0) (sample_ledger True 1000)
              = Inr 600"
    by (simp add: sample_defs run_defs)
  have h2: "transfer_failed (transfer (erc20 (sample_env 1060)) (sample_ledger True 1000)
              (this (sample_env 1060)) (beneficiary (sample_vesting 0)) 600)"
    by (simp add: sample_defs transfer_failed_def)
  from release_reverts_on_failed_transfer [OF h1 h2] h1 h2 show ?thesis by simp
qed

text \<open>
  Claim C4, as the code has it. \<^verbatim>\<open>release()\<close> reverts exactly when the reentrancy flag is
  set, or \<^verbatim>\<open>releasable_amount()\<close> reverts, or it returns 0, or the token transfer of the
  releasable amount fails. It succeeds exactly when the flag is clear,
  \<^verbatim>\<open>releasable_amount()\<close> returns some \<open>a > 0\<close> and \<^verbatim>\<open>token.transfer(beneficiary, a)\<close>
  returns \<^verbatim>\<open>true\<close>; then \<^verbatim>\<open>released\<close> has grown by exactly \<open>a\<close> (without wrap-around), nothing
  else in the contract has changed, and the token's state is the one that this transfer
  of exactly \<open>a\<close> from the contract to the beneficiary produced.
\<close>

theorem release_outcome:
  "(reverts (release E (c, ts)) \<longleftrightarrow>
      entered c \<or> reverts (releasable_amount E c ts) \<or> releasable_amount E c ts = Inr 0 \<or>
      (\<exists>a. releasable_amount E c ts = Inr a \<and>
           transfer_failed (transfer (erc20 E) ts (this E) (beneficiary c) a)))
   \<and> (release E (c, ts) = Inr (c', ts') \<longleftrightarrow>
        \<not> entered c \<and>
        (\<exists>a. releasable_amount E c ts = Inr a \<and> 0 < a \<and>
             transfer (erc20 E) ts (this E) (beneficiary c) a = Inr (True, ts') \<and>
             c' = c\<lparr>released := released c + a\<rparr> \<and>
             unat (released c') = unat (released c) + unat a))"
proof -
  have "unat (released c + a) = unat (released c) + unat a"
    if "releasable_amount E c ts = Inr a" for a
    using releasable_amount_no_overflow [OF that] checked_add_fits [of "released c" a] by simp
  then have "release E (c, ts) = Inr (c', ts') \<longleftrightarrow>
        \<not> entered c \<and>
        (\<exists>a. releasable_amount E c ts = Inr a \<and> 0 < a \<and>
             transfer (erc20 E) ts (this E) (beneficiary c) a = Inr (True, ts') \<and>
             c' = c\<lparr>released := released c + a\<rparr> \<and>
             unat (released c') = unat (released c) + unat a)"
    unfolding release_Inr by (auto simp add: word_neq_0_conv)
  with release_reverts_iff [of E c ts] show ?thesis by (rule conjI)
qed

theorem release_outcome_witness:
  "release (sample_env 1050) (sample_vesting 0, sample_ledger False 1000)
     = Inr (sample_vesting 500,
            \<lparr> paused = False, balances = (\<lambda>_. 0)(100 := 500, 200 := 500) \<rparr>)
   \<and> releasable_amount (sample_env 1050) (sample_vesting 0) (sample_ledger False 1000) = Inr 500"
proof -
  have h: "releasable_amount (sample_env 1050) (sample_vesting 0) (sample_ledger False 1000)
             = Inr 500"
    by (simp add: sample_defs run_defs)
  have t: "transfer (erc20 (sample_env 1050)) (sample_ledger False 1000) (this (sample_env 1050))
             (beneficiary (sample_vesting 0)) 500
           = Inr (True, \<lparr> paused = False, balances = (\<lambda>_. 0)(100 := 500, 200 := 500) \<rparr>)"
    by (simp add: sample_defs)
  have c: "sample_vesting 500 = (sample_vesting 0)\<lparr>released := released (sample_vesting 0) + 500\<rparr>"
    by (simp add: sample_vesting_def)
  have e: "\<not> entered (sample_vesting 0)" by (simp add: sample_vesting_def)
  have u: "unat (released (sample_vesting 500))
             = unat (released (sample_vesting 0)) + unat (500 :: uint256)"
    by (simp add: sample_vesting_def)
  have "release (sample_env 1050) (sample_vesting 0, sample_ledger False 1000)
     = Inr (sample_vesting 500,
            \<lparr> paused = False, balances = (\<lambda>_. 0)(100 := 500, 200 := 500) \<rparr>)"
    using h t c e u by (intro release_outcome [THEN conjunct2, THEN iffD2] conjI exI [of _ 500]) simp_all
  with h show ?thesis by simp
qed

text \<open>
  Claim C4 as it is stated fails where the transfer fails: with the sample token paused,
  \<^verbatim>\<open>releasable_amount()\<close> is 500, not 0, and \<^verbatim>\<open>release()\<close> reverts all the same.
\<close>

theorem release_paused_counterexample:
  "\<not> entered (sample_vesting 0)
   \<and> releasable_amount (sample_env 1050) (sample_vesting 0) (sample_ledger True 1000) = Inr 500
   \<and> release (sample_env 1050) (sample_vesting 0, sample_ledger True 1000)
       = Inl (Error ''TokenVesting: token transfer failed'')"
  by (simp add: sample_defs run_defs)





section \<open>The constructor\<close>

text \<open>
  Claim C2, as the code has it. The constructor succeeds exactly when the initial owner,
  the token address and the beneficiary are non-zero, \<open>duration > 0\<close>,
  \<open>cliff_duration \<le> duration\<close> and \<open>start_time \<ge> block.timestamp\<close>; it reverts otherwise.
  On success the five immutables hold the arguments, \<^verbatim>\<open>released\<close> is 0 and the owner is
  the initial owner.
\<close>

theorem constructor_accepts_iff:
  "if initial_owner \<noteq> 0 \<and> token_address \<noteq> 0 \<and> ben \<noteq> 0 \<and> 0 < dur \<and> cliff \<le> dur
        \<and> now \<le> start
   then constructor now token_address ben start cliff dur initial_owner
          = Inr \<lparr> token = token_address, beneficiary = ben, start_time = start,
                  cliff_duration = cliff, duration = dur, released = 0,
                  owner = initial_owner, entered = False \<rparr>
   else reverts (constructor now token_address ben start cliff dur initial_owner)"
  by (simp add: constructor_def Ownable_constructor_def require_def and_then_def reverts_def)

text \<open>
  Claim C2 as it is stated fails for a zero initial owner: the five constraints it lists
  hold, and the constructor reverts in the base constructor.
\<close>

theorem constructor_zero_owner_counterexample:
  "(300 :: address) \<noteq> 0 \<and> (200 :: address) \<noteq> 0 \<and> (0 :: uint256) < 100
   \<and> (30 :: uint256) \<le> 100 \<and> (900 :: uint256) \<le> 1000
   \<and> constructor 900 300 200 1000 30 100 0 = Inl (OwnableInvalidOwner 0)"
  by (simp add: constructor_def Ownable_constructor_def require_def and_then_def)

section \<open>Tokens that arrive after construction\<close>

text \<open>
  Claim C7, as the code has it. Every evaluation takes \<open>total_ever_held\<close> as the current
  token balance plus \<^verbatim>\<open>released\<close>. Compare two token states that differ by a deposit
  (\<open>b \<le> b'\<close> are the contract's balances, \<open>tot\<close> and \<open>tot'\<close> the two totals). If \<open>tot'\<close> and
  \<open>start_time + cliff_duration\<close> fit in \<^verbatim>\<open>uint256\<close>, and, for a timestamp at or after the
  end of the cliff, so does \<open>start_time + duration\<close>, and, for a timestamp between the
  cliff and the end, so does \<open>tot' * (t - start_time)\<close>, then \<^verbatim>\<open>_vested_amount(t)\<close> returns
  both without and with the deposit, each time the schedule's value for its own total;
  the value with the deposit is never the lower one; before the end of the cliff it is
  0; and once the cliff and the duration have passed it is higher by exactly the
  deposit. In every other case the call with the deposit reverts with \<^verbatim>\<open>Panic(0x11)\<close>.
\<close>

theorem deposits_raise_total_ever_held:
  assumes bal: "balanceOf (erc20 E) ts (this E) = Inr b"
    and bal': "balanceOf (erc20 E) ts' (this E) = Inr b'"
    and dep: "unat b \<le> unat b'"
  shows "let R = unat (released c); S = unat (start_time c); C = unat (cliff_duration c);
             D = unat (duration c); T = unat t; tot = unat b + R; tot' = unat b' + R
         in if tot' < 2 ^ 256 \<and> S + C < 2 ^ 256 \<and>
               (S + C \<le> T \<longrightarrow> S + D < 2 ^ 256 \<and> (T < S + D \<longrightarrow> tot' * (T - S) < 2 ^ 256))
            then \<exists>v v'. vested_amount E c ts t = Inr v \<and> vested_amount E c ts' t = Inr v'
                   \<and> unat v = vested_spec S C D tot T
                   \<and> unat v' = vested_spec S C D tot' T
                   \<and> unat v \<le> unat v'
                   \<and> (T < S + C \<longrightarrow> unat v' = 0)
                   \<and> (S + C \<le> T \<and> S + D \<le> T \<longrightarrow> unat v' = unat v + (unat b' - unat b))
            else vested_amount E c ts' t = Inl (Panic 17)"
proof -
  let ?S = "unat (start_time c)" and ?C = "unat (cliff_duration c)" and ?D = "unat (duration c)"
  let ?T = "unat t" and ?R = "unat (released c)"
  let ?ok = "\<lambda>tot. tot < 2 ^ 256 \<and> ?S + ?C < 2 ^ 256 \<and>
     (?S + ?C \<le> ?T \<longrightarrow> ?S + ?D < 2 ^ 256 \<and> (?T < ?S + ?D \<longrightarrow> tot * (?T - ?S) < (2::nat) ^ 256))"
  show ?thesis
  proof (cases "?ok (unat b' + ?R)")
    case False
    then show ?thesis
      using vested_amount_exact [OF bal', of c t] by (simp add: Let_def)
  next
    case ok': True
    have prod: "(unat b + ?R) * (?T - ?S) \<le> (unat b' + ?R) * (?T - ?S)"
      using dep by (intro mult_le_mono1) simp
    have lt: "(unat b + ?R) * (?T - ?S) < 2 ^ 256" if "(unat b' + ?R) * (?T - ?S) < 2 ^ 256"
      using prod that by (rule le_less_trans)
    have "unat b + ?R \<le> unat b' + ?R" using dep by simp
    then have "unat b + ?R < 2 ^ 256" using ok' by (meson le_less_trans)
    with ok' lt have ok: "?ok (unat b + ?R)" by blast
    from ok obtain v where ret: "vested_amount E c ts t = Inr v"
      using vested_amount_exact [OF bal, of c t] by (simp add: Let_def)
    from ok' obtain v' where ret': "vested_amount E c ts' t = Inr v'"
      using vested_amount_exact [OF bal', of c t] by (simp add: Let_def)
    have v: "unat v = vested_spec ?S ?C ?D (unat b + ?R) ?T"
      by (rule vested_amount_returns(1) [OF bal ret])
    have v': "unat v' = vested_spec ?S ?C ?D (unat b' + ?R) ?T"
      by (rule vested_amount_returns(1) [OF bal' ret'])
    have le: "unat v \<le> unat v'"
      unfolding v v' using dep by (intro vested_spec_mono_total) simp
    have zero: "unat v' = 0" if "?T < ?S + ?C"
      unfolding v' using that by (simp add: vested_spec_def)
    have full: "unat v' = unat v + (unat b' - unat b)" if "?S + ?C \<le> ?T \<and> ?S + ?D \<le> ?T"
      unfolding v v' using that dep by (simp add: vested_spec_def)
    have "\<exists>v v'. vested_amount E c ts t = Inr v \<and> vested_amount E c ts' t = Inr v'
                   \<and> unat v = vested_spec ?S ?C ?D (unat b + ?R) ?T
                   \<and> unat v' = vested_spec ?S ?C ?D (unat b' + ?R) ?T
                   \<and> unat v \<le> unat v'
                   \<and> (?T < ?S + ?C \<longrightarrow> unat v' = 0)
                   \<and> (?S + ?C \<le> ?T \<and> ?S + ?D \<le> ?T \<longrightarrow> unat v' = unat v + (unat b' - unat b))"
      using ret ret' v v' le zero full by blast
    with ok' show ?thesis by (simp add: Let_def)
  qed
qed

theorem deposits_raise_total_ever_held_witness:
  "balanceOf (erc20 (sample_env 1050)) (sample_ledger False 1000) (this (sample_env 1050)) = Inr 1000
   \<and> balanceOf (erc20 (sample_env 1050)) (sample_ledger False 1600) (this (sample_env 1050)) = Inr 1600
   \<and> unat (1000 :: uint256) \<le> unat (1600 :: uint256)
   \<and> (\<exists>v v'. vested_amount (sample_env 1050) (sample_vesting 0) (sample_ledger False 1000) 1050 = Inr v
          \<and> vested_amount (sample_env 1050) (sample_vesting 0) (sample_ledger False 1600) 1050 = Inr v'
          \<and> unat v = 500 \<and> unat v' = 800)"
proof -
  have h1: "balanceOf (erc20 (sample_env 1050)) (sample_ledger False 1000) (this (sample_env 1050))
              = Inr 1000"
    by (simp add: sample_defs)
  have h2: "balanceOf (erc20 (sample_env 1050)) (sample_ledger False 1600) (this (sample_env 1050))
              = Inr 1600"
    by (simp add: sample_defs)
  have h3: "unat (1000 :: uint256) \<le> unat (1600 :: uint256)" by simp
  from deposits_raise_total_ever_held [OF h1 h2 h3, of "sample_vesting 0" 1050]
  have "\<exists>v v'. vested_amount (sample_env 1050) (sample_vesting 0) (sample_ledger False 1000) 1050 = Inr v
          \<and> vested_amount (sample_env 1050) (sample_vesting 0) (sample_ledger False 1600) 1050 = Inr v'
          \<and> unat v = 500 \<and> unat v' = 800"
    by (auto simp add: sample_vesting_def vested_spec_def Let_def)
  with h1 h2 h3 show ?thesis by simp
qed

text \<open>
  Claim C7 as it is stated fails before the end of the cliff: 10 seconds into the
  schedule, with a cliff of 30 seconds, the vested amount is 0 with a balance of 1000
  and still 0 after 500 more tokens have arrived.
\<close>

theorem deposit_before_cliff_counterexample:
  "balanceOf (erc20 (sample_env 1010)) (sample_ledger False 1000) (this (sample_env 1010)) = Inr 1000
   \<and> balanceOf (erc20 (sample_env 1010)) (sample_ledger False 1500) (this (sample_env 1010)) = Inr 1500
   \<and> vested_amount (sample_env 1010) (sample_vesting 0) (sample_ledger False 1000) 1010 = Inr 0
   \<and> vested_amount (sample_env 1010) (sample_vesting 0) (sample_ledger False 1500) 1010 = Inr 0"
  by (simp add: sample_defs run_defs)

section \<open>The payload of the submit handler\<close>









end
